theory Spec2Isabelle
  imports Complex_Main "HOL-Library.Multiset"
begin

section \<open>Common: Python errors\<close>

text \<open>
  Every exception that the three scripts raise, or that a library call they make raises
  on the paths studied here, is a value of \<open>py_error\<close>; a function that may raise
  returns \<open>py_error + 'a\<close> with \<open>Inl\<close> for the exception.
\<close>

datatype py_error =
    KeyError string
  | ValueError string
  | ZeroDivisionError
  | FileNotFoundError string
  | IsADirectoryError string
  | UnicodeDecodeError string
  | IndexError
  | HubError string
  | JSONDecodeError
  | RecursionError
  | OSError string
  | ArrowError string

section \<open>Format Converter (convert\_jsonl\_to\_parquet.py)\<close>

subsection \<open>Files, diagnostics and collaborators\<close>

text \<open>
  The text that Python reads from a file is a sequence of Unicode code points; a path
  is a string. A path names a text file (its lines, each with its line terminator, as
  iterating over the open file yields them), a columnar snapshot (its rows) or a
  directory. \<open>'j\<close> is the type of a parsed JSON value.
\<close>

type_synonym pystr = "nat list"

datatype 'j node = TextFile "pystr list" | Snapshot "'j list" | Directory

type_synonym 'j fs = "string \<rightharpoonup> 'j node"




subsection \<open>The file system calls\<close>






subsection \<open>read\_jsonl\<close>







subsection \<open>convert\_jsonl\_to\_parquet\<close>














section \<open>Dataset Normalizer (examples/data\_preprocess/olympic\_dataset.py)\<close>

subsection \<open>Records\<close>

text \<open>
  A Raw Record is a dictionary from field names to values of some type \<open>'v\<close>. The
  Normalized Record is the dictionary literal of lines 81 to 96, field by field.
\<close>

type_synonym 'v raw = "string \<rightharpoonup> 'v"

record message =
  role :: string
  content :: string

record reward =
  style :: string
  ground_truth :: string

record 'v extra =
  split :: string
  index :: nat
  question :: 'v

record 'v normalized =
  data_source :: string
  prompt :: "message list"
  ability :: string
  reward_model :: reward
  extra_info :: "'v extra"

text \<open>
  The text of the f-string of lines 65 to 75 up to the replacement field: a line feed, the
  instructions, an empty line and \<open>PROBLEM: \<close>. After the field comes one line feed.
\<close>

definition prompt_prefix :: string where
  \<open>prompt_prefix =
     ''\<newline>'' @
     ''Your task is to write a proof solution to the following problem. Your proof '' @
     ''will be graded by judges for correctness and completeness. When you write '' @
     ''your proof, follow these guidelines:\<newline>'' @
     ''  - You are creating a proof, not a proof outline. Each step should be carefully '' @
     ''explained and documented. If not properly explained, the judge will assume '' @
     ''that you cannot explain it, and therefore decrease your grade.\<newline>'' @
     ''  - You can use general theorems and lemmas, but only if they are well-known. '' @
     ''As a rule of thumb: if the result has a name and is famous enough to have '' @
     ''a Wikipedia page or something similar to describe it, it is allowed. Any '' @
     ''result from papers that would not be taught in high school or low-level '' @
     ''bachelor courses in mathematics should not be used. Any use of such results '' @
     ''will immediately give you a zero grade.\<newline>'' @
     ''  - Do not skip computation steps in your proof. Clearly explain what transformations '' @
     ''were done and why they are allowed in each step of a calculation.\<newline>'' @
     ''  - You should use correct LaTeX notation to write equations and mathematical '' @
     ''symbols. You should encompass these equations in appropriate symbols ("'' @
     [CHR 0x5C] @
     ''(" and "'' @
     [CHR 0x5C] @
     '')" for inline math, "'' @
     [CHR 0x5C] @
     ''[" and "'' @
     [CHR 0x5C] @
     '']" for block math) to enhance the clarity of your proof. Do not use any '' @
     ''unicode characters.\<newline>'' @
     ''  - Your proof should be self-contained.\<newline>'' @
     ''  - If you are not sure about a specific step, or do not know how to prove '' @
     ''an intermediate result, clearly state this. It is much preferable to indicate '' @
     ''your uncertainty rather than making incorrect statements or claims.\<newline>'' @
     ''\<newline>'' @
     ''PROBLEM: ''\<close>

definition prompt_suffix :: string where
  "prompt_suffix = ''\<newline>''"

subsection \<open>\_make\_map\_fn and \_process\_fn\<close>

text \<open>
  \<open>_process_fn\<close> (lines 58 to 97), closed over \<open>split\<close> and \<open>data_source\<close>.
  \<open>example.pop("question")\<close> raises \<open>KeyError\<close> when the key is absent.
  \<open>fmt\<close> is the formatting of a value inside an f-string (Python's \<open>format\<close>),
  whose code is not part of the repository.
\<close>

definition make_map_fn ::
  "('v \<Rightarrow> string) \<Rightarrow> string \<Rightarrow> string \<Rightarrow> 'v raw \<Rightarrow> nat \<Rightarrow> py_error + 'v normalized" where
  "make_map_fn fmt split_name source example idx =
     (case example ''question'' of
        None \<Rightarrow> Inl (KeyError ''question'')
      | Some question_raw \<Rightarrow>
          let prompt_text = prompt_prefix @ fmt question_raw @ prompt_suffix in
          Inr \<lparr> data_source = source,
                prompt = [\<lparr> role = ''user'', content = prompt_text \<rparr>],
                ability = ''math'',
                reward_model = \<lparr> style = ''llm_as_a_judge'', ground_truth = ''0'' \<rparr>,
                extra_info = \<lparr> split = split_name, index = idx, question = question_raw \<rparr> \<rparr>)"

text \<open>
  \<open>Dataset.map(function, with_indices=True)\<close>: the function is applied to each record
  with its zero-based position, in order; an exception of the function ends the call.
\<close>

fun map_with_indices ::
  "('a \<Rightarrow> nat \<Rightarrow> py_error + 'b) \<Rightarrow> nat \<Rightarrow> 'a list \<Rightarrow> py_error + 'b list" where
  "map_with_indices f i [] = Inr []"
| "map_with_indices f i (x # xs) =
     (case f x i of
        Inl e \<Rightarrow> Inl e
      | Inr y \<Rightarrow>
          (case map_with_indices f (Suc i) xs of
             Inl e \<Rightarrow> Inl e
           | Inr ys \<Rightarrow> Inr (y # ys)))"

subsection \<open>The main block\<close>

text \<open>\<open>os.path.join\<close> of two components.\<close>

definition path_join :: "string \<Rightarrow> string \<Rightarrow> string" where
  "path_join a b =
     (if take 1 b = ''/'' then b
      else if a = [] \<or> last a = CHR ''/'' then a @ b
      else a @ ''/'' @ b)"

text \<open>
  The collaborators of the main block: \<open>fmt\<close> as above, \<open>to_parquet\<close> gives the
  bytes that \<open>Dataset.to_parquet\<close> writes for a mapped split, \<open>hdfs_mirror\<close> is the
  outcome of \<open>makedirs\<close> followed by \<open>copy\<close> of \<open>verl.utils.hdfs_io\<close>.
  The local file system is a map from paths to file contents \<open>'b\<close>.
\<close>

record ('v, 'b) nlib =
  fmt :: "'v \<Rightarrow> string"
  to_parquet :: "'v normalized list \<Rightarrow> 'b"
  hdfs_mirror :: "string \<Rightarrow> string \<Rightarrow> py_error + unit"

type_synonym 'v dataset_dict = "(string \<times> 'v list) list"

definition source_repo :: string where
  "source_repo = ''xiaomama2002/olympic_dataset''"

text \<open>
  The loop of lines 132 to 142 over the split names: map the split, write its snapshot
  to \<open><local_dir>/<split_name>.parquet\<close>. An exception leaves the files written so far.
\<close>

fun write_splits ::
  "('v, 'b) nlib \<Rightarrow> string \<Rightarrow> 'v raw dataset_dict \<Rightarrow> string list \<Rightarrow> (string \<rightharpoonup> 'b)
     \<Rightarrow> (string \<rightharpoonup> 'b) \<times> (py_error + unit)" where
  "write_splits L local_dir dataset [] fs = (fs, Inr ())"
| "write_splits L local_dir dataset (split_name # rest) fs =
     (case map_of dataset split_name of
        None \<Rightarrow> (fs, Inl (KeyError split_name))
      | Some hf_split \<Rightarrow>
          (case map_with_indices (make_map_fn (fmt L) split_name source_repo) 0 hf_split of
             Inl e \<Rightarrow> (fs, Inl e)
           | Inr mapped \<Rightarrow>
               let out_path = path_join local_dir (split_name @ ''.parquet'') in
               write_splits L local_dir dataset rest (fs(out_path \<mapsto> to_parquet L mapped))))"

text \<open>Lines 146 to 152: the copy of the validation snapshot under the name of the test one.\<close>

definition duplicate_validation ::
  "string \<Rightarrow> string list \<Rightarrow> (string \<rightharpoonup> 'b) \<Rightarrow> (string \<rightharpoonup> 'b)" where
  "duplicate_validation local_dir splits fs =
     (if ''validation'' \<in> set splits \<and> ''test'' \<notin> set splits then
        let src = path_join local_dir ''validation.parquet'';
            dst = path_join local_dir ''test.parquet''
        in (case fs src of
              Some bytes \<Rightarrow> fs(dst \<mapsto> bytes)
            | None \<Rightarrow> fs)
      else fs)"

text \<open>
  The main block from line 118 on, with \<open>local_dir\<close> already expanded; \<open>hub\<close> is
  what \<open>datasets.load_dataset\<close> finds under a repository name. It returns the local
  file system after the run and the outcome.
\<close>

definition normalizer_main ::
  "('v, 'b) nlib \<Rightarrow> (string \<rightharpoonup> 'v raw dataset_dict) \<Rightarrow> string \<Rightarrow> string option
     \<Rightarrow> (string \<rightharpoonup> 'b) \<Rightarrow> (string \<rightharpoonup> 'b) \<times> (py_error + unit)" where
  "normalizer_main L hub local_dir hdfs_dir fs =
     (case hub source_repo of
        None \<Rightarrow> (fs, Inl (HubError source_repo))
      | Some dataset \<Rightarrow>
          let splits = map fst dataset in
          (case write_splits L local_dir dataset splits fs of
             (fs1, Inl e) \<Rightarrow> (fs1, Inl e)
           | (fs1, Inr u) \<Rightarrow>
               let fs2 = duplicate_validation local_dir splits fs1 in
               (case hdfs_dir of
                  None \<Rightarrow> (fs2, Inr ())
                | Some d \<Rightarrow> (fs2, hdfs_mirror L local_dir d))))"

text \<open>Concrete collaborators and data for evaluation: values are strings, a file holds its rows.\<close>

definition demo_nlib :: "(string, string normalized list) nlib" where
  "demo_nlib = \<lparr> fmt = (\<lambda>s. s), to_parquet = (\<lambda>rows. rows), hdfs_mirror = (\<lambda>a b. Inr ()) \<rparr>"

definition demo_split :: "string raw list" where
  "demo_split = [[''question'' \<mapsto> ''2+2?''], [''question'' \<mapsto> ''3+3?'', ''answer'' \<mapsto> ''6'']]"

definition demo_hub :: "string \<rightharpoonup> string raw dataset_dict" where
  "demo_hub = [source_repo \<mapsto> [(''train'', demo_split), (''validation'', [[''question'' \<mapsto> ''1+1?'']])]]"

definition broken_hub :: "string \<rightharpoonup> string raw dataset_dict" where
  "broken_hub = [source_repo \<mapsto> [(''train'', [[''question'' \<mapsto> ''2+2?''], [''answer'' \<mapsto> ''6'']])]]"

section \<open>Splitter/Uploader (examples/data\_preprocess/split\_and\_upload\_olympic.py)\<close>

subsection \<open>Arguments, environment and effects\<close>

text \<open>
  The parsed command line (lines 44 to 56). There is no argument for a destination
  repository. \<open>test_size\<close> is a Python float; the record holds its value, a real
  number.
\<close>

record args =
  original_repo :: string
  test_size :: real
  hf_token :: "string option"
  seed :: int
  private_flag :: bool

text \<open>
  The default of \<open>--hf_token\<close> is \<open>os.getenv("HF_TOKEN")\<close> (line 49): the value
  given on the command line wins, else the environment variable, else \<open>None\<close>.
\<close>

definition hf_token_default :: "string option \<Rightarrow> string option \<Rightarrow> string option" where
  "hf_token_default cli env = (case cli of Some t \<Rightarrow> Some t | None \<Rightarrow> env)"

text \<open>\<open>not args.hf_token\<close>: \<open>None\<close> and the empty string are both false.\<close>

definition falsy :: "string option \<Rightarrow> bool" where
  "falsy t = (case t of None \<Rightarrow> True | Some s \<Rightarrow> s = [])"

text \<open>
  The calls that reach the network or the disk, in the order the script makes them:
  \<open>datasets.load_dataset\<close> downloads the source repository (and caches it on disk),
  \<open>push_to_hub\<close> publishes a dataset dictionary under a repository name with a
  visibility flag and a token.
\<close>

datatype 'r event =
    LoadDataset string
  | PushToHub string bool "string option" "(string \<times> 'r list) list"

text \<open>
  The surroundings of one run. \<open>hub\<close> is what \<open>load_dataset\<close> finds under a name.
  \<open>np_global\<close> is the seed that the library draws from the state of NumPy's global
  generator when it is given neither a seed nor a generator; the interpreter fills that
  state from the operating system's entropy at start-up, so it differs between runs.
  \<open>py_random\<close> is the seed of the generator of Python's \<open>random\<close> module.
  \<open>push_outcome\<close> is the outcome of the upload. \<open>round_double x\<close> is the double
  nearest to the real number \<open>x\<close>: the product of two doubles that the machine
  computes is \<open>round_double\<close> of their exact product.
\<close>

record 'r sworld =
  hub :: "string \<rightharpoonup> (string \<times> 'r list) list"
  np_global :: int
  py_random :: "int option"
  push_outcome :: "py_error + unit"
  round_double :: "real \<Rightarrow> real"

subsection \<open>The library's shuffle and split\<close>

text \<open>
  \<open>rng s n\<close> stands for \<open>numpy.random.default_rng(s).permutation(n)\<close>, whose code is
  not part of the repository. \<open>Dataset.select(indices)\<close> picks the rows at the given
  positions and raises \<open>IndexError\<close> on a position out of range.
\<close>

type_synonym rng = "int \<Rightarrow> nat \<Rightarrow> nat list"

definition select :: "'r list \<Rightarrow> nat list \<Rightarrow> py_error + 'r list" where
  "select xs idxs =
     (if list_all (\<lambda>i. i < length xs) idxs then Inr (map (\<lambda>i. xs ! i) idxs)
      else Inl IndexError)"

text \<open>
  What the library guarantees of its generator: the draw for \<open>n\<close> is a permutation of
  the positions \<open>0, ..., n - 1\<close>, whatever the seed.
\<close>

definition valid_rng :: "rng \<Rightarrow> bool" where
  "valid_rng g = (\<forall>s n. mset (g s n) = mset [0 ..< n])"

text \<open>\<open>Dataset.shuffle(seed=s)\<close>: the rows in the order of the permutation drawn from \<open>s\<close>.\<close>

definition shuffle :: "rng \<Rightarrow> int \<Rightarrow> 'r list \<Rightarrow> py_error + 'r list" where
  "shuffle g s xs = select xs (g s (length xs))"

text \<open>
  \<open>Dataset.train_test_split(test_size=t)\<close> with every other argument at its default:
  \<open>shuffle=True\<close>, \<open>seed=None\<close>, \<open>generator=None\<close>. A float \<open>t\<close> outside the open
  interval from 0 to 1 is rejected; the test split gets \<open>ceil(t * n)\<close> rows, where the
  product is the one of two doubles (\<open>rnd\<close> of the exact product), and the train split
  the other \<open>n - n_test\<close>; an empty train split is rejected. Since no seed is passed, the
  permutation is drawn from the seed \<open>np\<close> taken from NumPy's global state: its first
  \<open>n_test\<close> positions are the test split, the following \<open>n_train\<close> the train split.
\<close>

definition train_test_split ::
  "rng \<Rightarrow> (real \<Rightarrow> real) \<Rightarrow> int \<Rightarrow> real \<Rightarrow> 'r list
     \<Rightarrow> py_error + (string \<times> 'r list) list" where
  "train_test_split g rnd np t xs =
     (if t \<le> 0 \<or> 1 \<le> t then Inl (ValueError ''test_size'')
      else
        let n_samples = length xs;
            n_test = nat \<lceil>rnd (t * real n_samples)\<rceil>;
            n_train = int n_samples - int n_test
        in if n_train = 0 then Inl (ValueError ''empty train set'')
           else
             let permutation = g np n_samples;
                 test_indices = take n_test permutation;
                 train_indices = take (nat n_train) (drop n_test permutation)
             in (case select xs train_indices of
                   Inl e \<Rightarrow> Inl e
                 | Inr train_rows \<Rightarrow>
                     (case select xs test_indices of
                        Inl e \<Rightarrow> Inl e
                      | Inr test_rows \<Rightarrow> Inr [(''train'', train_rows), (''test'', test_rows)])))"

subsection \<open>The main block\<close>

text \<open>
  Lines 58 to 84. The token check comes first (line 58), then the download (line 62), then
  the check for a train split (line 64). \<open>random.seed\<close> (line 70) sets the generator of
  Python's \<open>random\<close> module, which nothing afterwards reads. The split of line 74 is
  called with \<open>test_size\<close> only. The upload of line 82 names \<open>args.original_repo\<close>.
  The result is the list of calls made, the surroundings after the run and the outcome.
\<close>

definition split_main ::
  "rng \<Rightarrow> args \<Rightarrow> 'r sworld \<Rightarrow> 'r event list \<times> 'r sworld \<times> (py_error + unit)" where
  "split_main g a w =
     (if falsy (hf_token a) then ([], w, Inl (ValueError ''HF_TOKEN''))
      else
        let ev1 = [LoadDataset (original_repo a)] in
        case hub w (original_repo a) of
          None \<Rightarrow> (ev1, w, Inl (HubError (original_repo a)))
        | Some original \<Rightarrow>
            (case map_of original ''train'' of
               None \<Rightarrow> (ev1, w, Inl (ValueError ''no train split''))
             | Some train_split \<Rightarrow>
                 let w1 = w\<lparr>py_random := Some (seed a)\<rparr> in
                 (case shuffle g (seed a) train_split of
                    Inl e \<Rightarrow> (ev1, w1, Inl e)
                  | Inr shuffled \<Rightarrow>
                      (case train_test_split g (round_double w1) (np_global w1) (test_size a) shuffled of
                         Inl e \<Rightarrow> (ev1, w1, Inl e)
                       | Inr split_dict \<Rightarrow>
                           (case map_of split_dict ''train'' of
                              None \<Rightarrow> (ev1, w1, Inl (KeyError ''train''))
                            | Some tr \<Rightarrow>
                                (case map_of split_dict ''test'' of
                                   None \<Rightarrow> (ev1, w1, Inl (KeyError ''test''))
                                 | Some te \<Rightarrow>
                                     let new_dataset = [(''train'', tr), (''test'', te)] in
                                     (ev1 @ [PushToHub (original_repo a) (private_flag a)
                                               (hf_token a) new_dataset],
                                      w1, push_outcome w1)))))))"

text \<open>The partition that a run publishes, when it publishes one.\<close>

definition published :: "'r event list \<Rightarrow> (string \<times> 'r list) list option" where
  "published evs =
     (case filter (\<lambda>e. case e of PushToHub r p t d \<Rightarrow> True | _ \<Rightarrow> False) evs of
        PushToHub r p t d # rest \<Rightarrow> Some d
      | _ \<Rightarrow> None)"

text \<open>
  What the partitioning would be if the split of line 74 kept the order of the seeded
  shuffle: the first \<open>ceil(t * n)\<close> rows of the shuffled sequence are the test split, the
  remainder the train split.
\<close>

definition contiguous_split :: "real \<Rightarrow> 'r list \<Rightarrow> (string \<times> 'r list) list" where
  "contiguous_split t shuffled =
     (let n_test = nat \<lceil>t * real (length shuffled)\<rceil>
      in [(''train'', drop n_test shuffled), (''test'', take n_test shuffled)])"

text \<open>
  What rounding to the nearest double guarantees: it is monotone and leaves the integers
  up to \<open>2^53\<close> unchanged, which are doubles themselves, so a rounded number lies on the
  same side of every such integer as the number itself.
\<close>

definition keeps_integer_order :: "(real \<Rightarrow> real) \<Rightarrow> bool" where
  "keeps_integer_order rnd =
     (\<forall>x. \<forall>m :: int. \<bar>m\<bar> \<le> 2 ^ 53 \<longrightarrow>
        (x \<le> of_int m \<longrightarrow> rnd x \<le> of_int m) \<and> (of_int m \<le> x \<longrightarrow> of_int m \<le> rnd x))"

text \<open>
  Concrete surroundings for evaluation. The stand-in generator rotates the identity
  permutation by the seed. The products of the examples, such as \<open>0.5 * 4\<close>, are
  doubles themselves, so their rounding changes nothing.
\<close>

definition demo_rng :: rng where
  "demo_rng s n = (let k = nat s mod n in drop k [0 ..< n] @ take k [0 ..< n])"

definition demo_args :: args where
  "demo_args = \<lparr> original_repo = ''xiaomama2002/olympic_dataset'', test_size = 1/2,
                 hf_token = Some ''hf_x'', seed = 42, private_flag = False \<rparr>"

definition demo_sworld :: "int \<Rightarrow> string sworld" where
  "demo_sworld np =
     \<lparr> hub = [''xiaomama2002/olympic_dataset'' \<mapsto> [(''train'', [''q0'', ''q1'', ''q2'', ''q3''])]],
       np_global = np, py_random = None, push_outcome = Inr (), round_double = (\<lambda>x. x) \<rparr>"

definition no_train_sworld :: "string sworld" where
  "no_train_sworld =
     \<lparr> hub = [''xiaomama2002/olympic_dataset'' \<mapsto> [(''validation'', [''q0'', ''q1''])]],
       np_global = 7, py_random = None, push_outcome = Inr (), round_double = (\<lambda>x. x) \<rparr>"

text \<open>
  A second example, at the default \<open>--test_size 0.2\<close> with five records. The double
  written \<open>0.2\<close> is \<open>3602879701896397 / 2^54\<close>, a little more than a fifth; its product
  with 5 lies between 1 and 2, where the doubles are the multiples of \<open>2^-52\<close>.
\<close>

definition round_near_one :: "real \<Rightarrow> real" where
  "round_near_one x = of_int (round (x * 2 ^ 52)) / 2 ^ 52"

definition fifth_args :: args where
  "fifth_args = \<lparr> original_repo = ''xiaomama2002/olympic_dataset'',
                  test_size = 3602879701896397 / 18014398509481984,
                  hf_token = Some ''hf_x'', seed = 42, private_flag = False \<rparr>"

definition fifth_sworld :: "string sworld" where
  "fifth_sworld =
     \<lparr> hub = [''xiaomama2002/olympic_dataset'' \<mapsto>
                [(''train'', [''q0'', ''q1'', ''q2'', ''q3'', ''q4''])]],
       np_global = 1, py_random = None, push_outcome = Inr (), round_double = round_near_one \<rparr>"

section \<open>Properties of the Format Converter\<close>

subsection \<open>The reading loop\<close>








subsection \<open>The conversion\<close>








section \<open>Properties of the Dataset Normalizer\<close>

subsection \<open>The transformation and the mapping of a split\<close>

lemma make_map_fn_Inr:
  "make_map_fn f sp src ex i = Inr r \<Longrightarrow>
     \<exists>q. ex ''question'' = Some q
       \<and> r = \<lparr> data_source = src,
               prompt = [\<lparr> role = ''user'', content = prompt_prefix @ f q @ prompt_suffix \<rparr>],
               ability = ''math'',
               reward_model = \<lparr> style = ''llm_as_a_judge'', ground_truth = ''0'' \<rparr>,
               extra_info = \<lparr> split = sp, index = i, question = q \<rparr> \<rparr>"
  by (auto simp: make_map_fn_def Let_def split: option.splits)

lemma map_with_indices_Inr:
  "map_with_indices f i xs = Inr ys \<Longrightarrow>
     length ys = length xs \<and> (\<forall>k < length xs. f (xs ! k) (i + k) = Inr (ys ! k))"
proof (induction xs arbitrary: i ys)
  case Nil
  then show ?case by simp
next
  case (Cons x xs)
  from Cons.prems obtain y ys' where
    fx: "f x i = Inr y" and rest: "map_with_indices f (Suc i) xs = Inr ys'" and ys: "ys = y # ys'"
    by (auto split: sum.splits)
  from Cons.IH [OF rest] have
    len: "length ys' = length xs" and
    nth: "\<And>k. k < length xs \<Longrightarrow> f (xs ! k) (Suc i + k) = Inr (ys' ! k)"
    by auto
  show ?case
  proof (intro conjI allI impI)
    show "length ys = length (x # xs)" using len ys by simp
  next
    fix k assume "k < length (x # xs)"
    then show "f ((x # xs) ! k) (i + k) = Inr (ys ! k)"
      using fx nth ys by (cases k) auto
  qed
qed

lemma map_with_indices_total:
  "(\<And>x k. x \<in> set xs \<Longrightarrow> \<exists>y. f x k = Inr y) \<Longrightarrow> \<exists>ys. map_with_indices f i xs = Inr ys"
proof (induction xs arbitrary: i)
  case Nil
  then show ?case by simp
next
  case (Cons x xs)
  obtain y where "f x i = Inr y" using Cons.prems [of x i] by auto
  moreover obtain ys where "map_with_indices f (Suc i) xs = Inr ys"
    using Cons.IH [of "Suc i"] Cons.prems by auto
  ultimately show ?case by simp
qed

lemma map_with_indices_Inl:
  "x \<in> set xs \<Longrightarrow> (\<And>k. f x k = Inl e) \<Longrightarrow> (\<And>x k e'. f x k = Inl e' \<Longrightarrow> e' = e)
     \<Longrightarrow> map_with_indices f i xs = Inl e"
proof (induction xs arbitrary: i)
  case Nil
  then show ?case by simp
next
  case (Cons z zs)
  show ?case
  proof (cases "f z i")
    case (Inl e')
    then show ?thesis using Cons.prems(3) by auto
  next
    case (Inr y)
    then have "z \<noteq> x" using Cons.prems(2) [of i] by auto
    then have "x \<in> set zs" using Cons.prems(1) by simp
    then have "map_with_indices f (Suc i) zs = Inl e"
      using Cons.IH Cons.prems(2,3) by blast
    then show ?thesis using Inr by simp
  qed
qed

lemma make_map_fn_missing:
  "ex ''question'' = None \<Longrightarrow> make_map_fn f sp src ex i = Inl (KeyError ''question'')"
  by (simp add: make_map_fn_def)

lemma make_map_fn_Inl:
  "make_map_fn f sp src ex i = Inl e \<Longrightarrow> e = KeyError ''question''"
  by (auto simp: make_map_fn_def Let_def split: option.splits)

lemma make_map_fn_present:
  "ex ''question'' \<noteq> None \<Longrightarrow> \<exists>y. make_map_fn f sp src ex i = Inr y"
  by (auto simp: make_map_fn_def Let_def split: option.splits)

lemma map_split_missing:
  assumes "r \<in> set rs" "r ''question'' = None"
  shows "map_with_indices (make_map_fn f sp src) i rs = Inl (KeyError ''question'')"
  using assms(1)
  by (rule map_with_indices_Inl) (auto simp: make_map_fn_missing assms(2) dest: make_map_fn_Inl)

lemma map_split_Inl:
  "map_with_indices (make_map_fn f sp src) i rs = Inl e \<Longrightarrow> e = KeyError ''question''"
proof (induction rs arbitrary: i)
  case Nil
  then show ?case by simp
next
  case (Cons r rs)
  then show ?case
    by (auto split: sum.splits dest: make_map_fn_Inl)
qed

lemma write_splits_missing:
  assumes "\<forall>n \<in> set names. map_of dataset n \<noteq> None"
      and "n \<in> set names" "map_of dataset n = Some rs" "r \<in> set rs" "r ''question'' = None"
  shows "snd (write_splits L d dataset names fs) = Inl (KeyError ''question'')"
  using assms(1,2)
proof (induction names arbitrary: fs)
  case Nil
  then show ?case by simp
next
  case (Cons m ms)
  obtain hf where hf: "map_of dataset m = Some hf" using Cons.prems(1) by auto
  show ?case
  proof (cases "map_with_indices (make_map_fn (fmt L) m source_repo) 0 hf")
    case (Inl e)
    then show ?thesis using hf map_split_Inl [OF Inl] by simp
  next
    case (Inr mapped)
    have "m \<noteq> n"
    proof
      assume "m = n"
      then have "hf = rs" using hf assms(3) by simp
      then show False using Inr map_split_missing [OF assms(4,5), of "fmt L" m source_repo 0] by simp
    qed
    then have "n \<in> set ms" using Cons.prems(2) by auto
    then show ?thesis using Cons.IH Cons.prems(1) hf Inr by (simp add: Let_def)
  qed
qed

lemma write_splits_ok:
  assumes "\<forall>n \<in> set names. \<exists>rs. map_of dataset n = Some rs \<and> (\<forall>r \<in> set rs. r ''question'' \<noteq> None)"
  shows "\<exists>fs'. write_splits L d dataset names fs = (fs', Inr ())
           \<and> dom fs \<subseteq> dom fs'
           \<and> (\<forall>n \<in> set names. path_join d (n @ ''.parquet'') \<in> dom fs')"
  using assms
proof (induction names arbitrary: fs)
  case Nil
  then show ?case by simp
next
  case (Cons m ms)
  obtain hf where hf: "map_of dataset m = Some hf" and q: "\<forall>r \<in> set hf. r ''question'' \<noteq> None"
    using Cons.prems by auto
  have "\<exists>ys. map_with_indices (make_map_fn (fmt L) m source_repo) 0 hf = Inr ys"
  proof (rule map_with_indices_total)
    fix x k assume "x \<in> set hf"
    then have "x ''question'' \<noteq> None" using q by simp
    then show "\<exists>y. make_map_fn (fmt L) m source_repo x k = Inr y"
      by (rule make_map_fn_present)
  qed
  then obtain mapped where mp: "map_with_indices (make_map_fn (fmt L) m source_repo) 0 hf = Inr mapped"
    by (elim exE)
  define fs1 where "fs1 = fs(path_join d (m @ ''.parquet'') \<mapsto> to_parquet L mapped)"
  obtain fs' where r: "write_splits L d dataset ms fs1 = (fs', Inr ())"
    and mono: "dom fs1 \<subseteq> dom fs'"
    and all: "\<forall>n \<in> set ms. path_join d (n @ ''.parquet'') \<in> dom fs'"
    using Cons.IH [of fs1] Cons.prems by auto
  have "write_splits L d dataset (m # ms) fs = (fs', Inr ())"
    using hf mp r by (simp add: fs1_def Let_def)
  moreover have "dom fs \<subseteq> dom fs'" using mono by (auto simp: fs1_def)
  moreover have "path_join d (m @ ''.parquet'') \<in> dom fs'" using mono by (auto simp: fs1_def)
  ultimately show ?case using all by auto
qed

lemma validation_test_paths_differ:
  "path_join d ''validation.parquet'' \<noteq> path_join d ''test.parquet''"
  by (simp add: path_join_def)

subsection \<open>Provenance\<close>

text \<open>
  Claim C6. When the mapping of a split succeeds, it yields one Normalized Record per Raw
  Record, in order; the record at position \<open>k\<close> carries in \<open>extra_info\<close> the
  question of the Raw Record at position \<open>k\<close>, unchanged, the index \<open>k\<close> and the
  name of the split. The indices of the produced records are \<open>0, 1, ..., K - 1\<close> in
  order, so each produced record goes back to exactly one Raw Record of its split.
\<close>

theorem normalized_traceable:
  assumes "map_with_indices (make_map_fn f sp src) 0 xs = Inr ys"
  shows "length ys = length xs
         \<and> (\<forall>k < length xs.
               (xs ! k) ''question'' = Some (question (extra_info (ys ! k)))
               \<and> index (extra_info (ys ! k)) = k
               \<and> split (extra_info (ys ! k)) = sp)
         \<and> map (\<lambda>y. index (extra_info y)) ys = [0 ..< length xs]"
proof -
  from map_with_indices_Inr [OF assms] have
    len: "length ys = length xs" and
    nth: "\<And>k. k < length xs \<Longrightarrow> make_map_fn f sp src (xs ! k) k = Inr (ys ! k)"
    by auto
  have each: "(xs ! k) ''question'' = Some (question (extra_info (ys ! k)))
               \<and> index (extra_info (ys ! k)) = k \<and> split (extra_info (ys ! k)) = sp"
    if "k < length xs" for k
    using make_map_fn_Inr [OF nth [OF that]] by auto
  have "map (\<lambda>y. index (extra_info y)) ys = [0 ..< length xs]"
    using len each by (intro nth_equalityI) auto
  with len each show ?thesis by blast
qed

theorem normalized_traceable_witness:
  "\<exists>ys. map_with_indices (make_map_fn (\<lambda>s. s) ''train'' source_repo) 0 demo_split = Inr ys
        \<and> length ys = 2
        \<and> question (extra_info (ys ! 1)) = ''3+3?''
        \<and> index (extra_info (ys ! 1)) = 1
        \<and> map (\<lambda>y. index (extra_info y)) ys = [0, 1]"
proof -
  obtain ys where ys: "map_with_indices (make_map_fn (\<lambda>s. s) ''train'' source_repo) 0 demo_split = Inr ys"
    by (simp add: demo_split_def make_map_fn_def)
  have l: "length demo_split = 2" by (simp add: demo_split_def)
  have q: "(demo_split ! 1) ''question'' = Some ''3+3?''" by (simp add: demo_split_def)
  have u: "[0 ..< 2] = [0, Suc 0]" by (simp add: upt_rec)
  show ?thesis
    using normalized_traceable [OF ys] ys l q u by auto
qed

subsection \<open>Missing question\<close>

text \<open>
  Claim C7. A Raw Record without the key \<open>question\<close> makes the transformation raise
  \<open>KeyError\<close>, and a run whose source holds such a record in any split ends with that
  error (nothing catches it). Whenever the transformation does return a record, the
  Raw Record had a question and the prompt is the template with that question formatted
  into it.
\<close>

theorem missing_question_fatal:
  assumes "H source_repo = Some dataset" "distinct (map fst dataset)"
      and "(n, rs) \<in> set dataset" "r \<in> set rs" "r ''question'' = None"
  shows "make_map_fn (fmt L) n source_repo r k = Inl (KeyError ''question'')
         \<and> snd (normalizer_main L H local_dir hdfs_dir fs) = Inl (KeyError ''question'')
         \<and> (\<forall>ex i y. make_map_fn (fmt L) n source_repo ex i = Inr y \<longrightarrow>
               (\<exists>q. ex ''question'' = Some q
                  \<and> map content (prompt y) = [prompt_prefix @ fmt L q @ prompt_suffix]))"
proof -
  have keys: "\<forall>m \<in> set (map fst dataset). map_of dataset m \<noteq> None"
    by (auto simp: map_of_eq_None_iff)
  have n: "n \<in> set (map fst dataset)" using assms(3) by force
  have rs: "map_of dataset n = Some rs" using assms(2,3) by simp
  have w: "snd (write_splits L local_dir dataset (map fst dataset) fs) = Inl (KeyError ''question'')"
    using write_splits_missing [OF keys n rs assms(4,5)] .
  have "snd (normalizer_main L H local_dir hdfs_dir fs) = Inl (KeyError ''question'')"
    using assms(1) w
    by (cases "write_splits L local_dir dataset (map fst dataset) fs")
       (auto simp: normalizer_main_def Let_def split: sum.splits)
  moreover have "\<forall>ex i y. make_map_fn (fmt L) n source_repo ex i = Inr y \<longrightarrow>
               (\<exists>q. ex ''question'' = Some q
                  \<and> map content (prompt y) = [prompt_prefix @ fmt L q @ prompt_suffix])"
    by (auto dest!: make_map_fn_Inr)
  moreover have "make_map_fn (fmt L) n source_repo r k = Inl (KeyError ''question'')"
    using assms(5) by (simp add: make_map_fn_def)
  ultimately show ?thesis by blast
qed

theorem missing_question_fatal_witness:
  "broken_hub source_repo = Some [(''train'', [[''question'' \<mapsto> ''2+2?''], [''answer'' \<mapsto> ''6'']])]
   \<and> [''answer'' \<mapsto> ''6''] ''question'' = None
   \<and> make_map_fn (fmt demo_nlib) ''train'' source_repo [''answer'' \<mapsto> ''6''] 1 = Inl (KeyError ''question'')
   \<and> snd (normalizer_main demo_nlib broken_hub ''out'' None Map.empty) = Inl (KeyError ''question'')
   \<and> (\<exists>y. make_map_fn (fmt demo_nlib) ''train'' source_repo [''question'' \<mapsto> ''2+2?''] 0 = Inr y
          \<and> map content (prompt y) = [prompt_prefix @ ''2+2?'' @ prompt_suffix])"
proof -
  let ?bad = "[''answer'' \<mapsto> ''6''] :: string raw"
  let ?good = "[''question'' \<mapsto> ''2+2?''] :: string raw"
  let ?rs = "[?good, ?bad]"
  have h: "broken_hub source_repo = Some [(''train'', ?rs)]"
    by (simp add: broken_hub_def)
  have d: "distinct (map fst [(''train'', ?rs)])" by simp
  have m: "(''train'', ?rs) \<in> set [(''train'', ?rs)]" by simp
  have r: "?bad \<in> set ?rs" by simp
  have q: "?bad ''question'' = None" by simp
  obtain y where y: "make_map_fn (fmt demo_nlib) ''train'' source_repo ?good 0 = Inr y"
    by (simp add: make_map_fn_def)
  have f: "fmt demo_nlib ''2+2?'' = ''2+2?''" by (simp add: demo_nlib_def)
  note t = missing_question_fatal
    [where H = broken_hub and dataset = "[(''train'', ?rs)]" and n = "''train''" and rs = ?rs
       and r = ?bad and L = demo_nlib and k = 1 and local_dir = "''out''" and hdfs_dir = None
       and fs = Map.empty, OF h d m r q]
  from t have "\<exists>qq. ?good ''question'' = Some qq
                 \<and> map content (prompt y) = [prompt_prefix @ fmt demo_nlib qq @ prompt_suffix]"
    using y by blast
  then have c: "map content (prompt y) = [prompt_prefix @ ''2+2?'' @ prompt_suffix]"
    using f by auto
  have t1: "make_map_fn (fmt demo_nlib) ''train'' source_repo ?bad 1 = Inl (KeyError ''question'')"
    using t by (rule conjunct1)
  have t2: "snd (normalizer_main demo_nlib broken_hub ''out'' None Map.empty) = Inl (KeyError ''question'')"
    using t by (elim conjE)
  have e: "\<exists>y. make_map_fn (fmt demo_nlib) ''train'' source_repo ?good 0 = Inr y
          \<and> map content (prompt y) = [prompt_prefix @ ''2+2?'' @ prompt_suffix]"
    using y c by (intro exI [of _ y] conjI)
  show ?thesis
    using h q t1 t2 e by (intro conjI)
qed

subsection \<open>Split-name fallback\<close>

text \<open>
  Claim C8. When the source has a split \<open>validation\<close> and no split \<open>test\<close> (and
  every record has a question, so that the loop over the splits completes), the file
  system after the run has a file \<open>test.parquet\<close> with the same contents as
  \<open>validation.parquet\<close>, and \<open>validation.parquet\<close> is still there with the
  contents the loop left in it.
\<close>

theorem validation_duplicated_as_test:
  assumes "H source_repo = Some dataset" "distinct (map fst dataset)"
      and "''validation'' \<in> set (map fst dataset)" "''test'' \<notin> set (map fst dataset)"
      and "\<forall>(n, rs) \<in> set dataset. \<forall>r \<in> set rs. r ''question'' \<noteq> None"
  shows "\<exists>fs1 fs' res.
           write_splits L local_dir dataset (map fst dataset) fs = (fs1, Inr ())
         \<and> normalizer_main L H local_dir hdfs_dir fs = (fs', res)
         \<and> fs' (path_join local_dir ''test.parquet'') = fs' (path_join local_dir ''validation.parquet'')
         \<and> fs' (path_join local_dir ''validation.parquet'') \<noteq> None
         \<and> fs' (path_join local_dir ''validation.parquet'') = fs1 (path_join local_dir ''validation.parquet'')"
proof -
  let ?src = "path_join local_dir ''validation.parquet''"
  let ?dst = "path_join local_dir ''test.parquet''"
  have pre: "\<forall>n \<in> set (map fst dataset).
               \<exists>rs. map_of dataset n = Some rs \<and> (\<forall>r \<in> set rs. r ''question'' \<noteq> None)"
  proof
    fix n assume "n \<in> set (map fst dataset)"
    then obtain rs where m: "(n, rs) \<in> set dataset" by auto
    then have "map_of dataset n = Some rs" using assms(2) by simp
    then show "\<exists>rs. map_of dataset n = Some rs \<and> (\<forall>r \<in> set rs. r ''question'' \<noteq> None)"
      using m assms(5) by auto
  qed
  obtain fs1 where w: "write_splits L local_dir dataset (map fst dataset) fs = (fs1, Inr ())"
    and written: "\<forall>n \<in> set (map fst dataset). path_join local_dir (n @ ''.parquet'') \<in> dom fs1"
    using write_splits_ok [OF pre, of L local_dir fs] by auto
  have "path_join local_dir (''validation'' @ ''.parquet'') \<in> dom fs1"
    using written assms(3) by blast
  then obtain bytes where b: "fs1 ?src = Some bytes" by auto
  have d: "duplicate_validation local_dir (map fst dataset) fs1 = fs1(?dst \<mapsto> bytes)"
    using assms(3,4) b by (simp add: duplicate_validation_def)
  have m: "fst (normalizer_main L H local_dir hdfs_dir fs) = fs1(?dst \<mapsto> bytes)"
    using assms(1) w d by (simp add: normalizer_main_def Let_def split: option.splits)
  have ne: "?src \<noteq> ?dst" by (rule validation_test_paths_differ)
  show ?thesis
    using w m b ne
    by (cases "normalizer_main L H local_dir hdfs_dir fs") auto
qed

theorem validation_duplicated_as_test_witness:
  "demo_hub source_repo = Some [(''train'', demo_split), (''validation'', [[''question'' \<mapsto> ''1+1?'']])]
   \<and> (\<exists>fs' res. normalizer_main demo_nlib demo_hub ''out'' None Map.empty = (fs', res)
          \<and> fs' ''out/test.parquet'' = fs' ''out/validation.parquet''
          \<and> fs' ''out/validation.parquet'' \<noteq> None)"
proof -
  let ?ds = "[(''train'', demo_split), (''validation'', [[''question'' \<mapsto> ''1+1?'']])] :: string raw dataset_dict"
  have h: "demo_hub source_repo = Some ?ds" by (simp add: demo_hub_def)
  have d: "distinct (map fst ?ds)" by simp
  have v: "''validation'' \<in> set (map fst ?ds)" by simp
  have t: "''test'' \<notin> set (map fst ?ds)" by simp
  have q: "\<forall>(n, rs) \<in> set ?ds. \<forall>r \<in> set rs. r ''question'' \<noteq> None"
    by (simp add: demo_split_def)
  have p1: "path_join ''out'' ''test.parquet'' = ''out/test.parquet''" by (simp add: path_join_def)
  have p2: "path_join ''out'' ''validation.parquet'' = ''out/validation.parquet''"
    by (simp add: path_join_def)
  show ?thesis
    using validation_duplicated_as_test
      [where H = demo_hub and dataset = ?ds and L = demo_nlib and local_dir = "''out''"
         and fs = Map.empty and hdfs_dir = None, OF h d v t q] h
    unfolding p1 p2 by blast
qed

section \<open>Properties of the Splitter/Uploader\<close>

subsection \<open>Permutations, selection and rounding\<close>

lemma demo_rng_valid: "valid_rng demo_rng"
proof -
  have "mset (drop k xs @ take k xs) = mset xs" for k and xs :: "nat list"
  proof -
    have "mset (drop k xs @ take k xs) = mset (take k xs @ drop k xs)"
      by (simp only: mset_append add.commute)
    then show ?thesis by simp
  qed
  then show ?thesis unfolding valid_rng_def demo_rng_def Let_def by blast
qed

lemma perm_indices_in_range:
  assumes "mset p = mset [0 ..< n]"
  shows "list_all (\<lambda>i. i < n) p"
proof -
  have "set p = set [0 ..< n]" using assms by (rule mset_eq_setD)
  then show ?thesis by (auto simp: list_all_iff)
qed

lemma select_all:
  assumes "mset p = mset [0 ..< length xs]"
  shows "select xs p = Inr (map (\<lambda>i. xs ! i) p)"
    and "mset (map (\<lambda>i. xs ! i) p) = mset xs"
proof -
  show "select xs p = Inr (map (\<lambda>i. xs ! i) p)"
    using perm_indices_in_range [OF assms] by (simp add: select_def)
  have "mset (map (\<lambda>i. xs ! i) p) = image_mset (\<lambda>i. xs ! i) (mset p)" by simp
  also have "\<dots> = image_mset (\<lambda>i. xs ! i) (mset [0 ..< length xs])" using assms by simp
  also have "\<dots> = mset (map (\<lambda>i. xs ! i) [0 ..< length xs])" by simp
  also have "\<dots> = mset xs" by (simp only: map_nth)
  finally show "mset (map (\<lambda>i. xs ! i) p) = mset xs" .
qed

lemma select_Inr:
  "select xs p = Inr ys \<Longrightarrow> ys = map (\<lambda>i. xs ! i) p"
  by (auto simp: select_def split: if_splits)

lemma shuffle_perm:
  assumes "valid_rng g" "shuffle g s xs = Inr ys"
  shows "mset ys = mset xs" and "length ys = length xs"
proof -
  have p: "mset (g s (length xs)) = mset [0 ..< length xs]"
    using assms(1) by (simp add: valid_rng_def)
  have "ys = map (\<lambda>i. xs ! i) (g s (length xs))"
    using assms(2) by (simp add: shuffle_def select_Inr)
  then show "mset ys = mset xs" using select_all(2) [OF p] by simp
  then show "length ys = length xs" by (rule mset_eq_length)
qed

lemma shuffle_total:
  assumes "valid_rng g"
  shows "\<exists>ys. shuffle g s xs = Inr ys"
proof -
  have p: "mset (g s (length xs)) = mset [0 ..< length xs]"
    using assms by (simp add: valid_rng_def)
  show ?thesis using select_all(1) [OF p] by (simp add: shuffle_def)
qed

lemma rounded_ceiling_bounds:
  fixes t :: real
  assumes k: "keeps_integer_order rnd" and t: "0 < t" "t < 1" and b: "n \<le> 2 ^ 53"
  shows "nat \<lceil>rnd (t * real n)\<rceil> \<le> n"
    and "t * real n - 1 < real (nat \<lceil>rnd (t * real n)\<rceil>)"
    and "real (nat \<lceil>rnd (t * real n)\<rceil>) < t * real n + 1"
proof -
  define x where "x = t * real n"
  define c where "c = \<lceil>rnd x\<rceil>"
  have up: "rnd y \<le> of_int m" if "y \<le> of_int m" "\<bar>m\<bar> \<le> 2 ^ 53" for y and m :: int
    using k that by (simp add: keeps_integer_order_def)
  have lo: "of_int m \<le> rnd y" if "of_int m \<le> y" "\<bar>m\<bar> \<le> 2 ^ 53" for y and m :: int
    using k that by (simp add: keeps_integer_order_def)
  have nb: "int n \<le> 2 ^ 53" using b by (metis of_nat_le_iff of_nat_numeral of_nat_power)
  have x0: "0 \<le> x" using t(1) by (simp add: x_def)
  then have "of_int 0 \<le> x" by simp
  then have "of_int 0 \<le> rnd x" by (rule lo) simp
  then have c0: "0 \<le> c" unfolding c_def by (simp add: le_ceiling_iff)
  have "x \<le> 1 * real n" unfolding x_def using t(2) by (intro mult_right_mono) simp_all
  then have xn: "x \<le> of_int (int n)" by simp
  moreover have "\<bar>int n\<bar> \<le> 2 ^ 53" using nb by simp
  ultimately have "rnd x \<le> of_int (int n)" by (rule up)
  then have cn: "c \<le> int n" unfolding c_def by (simp add: ceiling_le_iff)
  have f0: "0 \<le> \<lfloor>x\<rfloor>" using x0 by simp
  have fn: "\<lfloor>x\<rfloor> \<le> int n" using xn by (simp add: floor_le_iff)
  have fb: "\<bar>\<lfloor>x\<rfloor>\<bar> \<le> 2 ^ 53" using f0 fn nb by linarith
  have "of_int \<lfloor>x\<rfloor> \<le> rnd x" using of_int_floor_le fb by (rule lo)
  also have "\<dots> \<le> of_int c" unfolding c_def by (rule le_of_int_ceiling)
  finally have "\<lfloor>x\<rfloor> \<le> c" by simp
  then have "(of_int \<lfloor>x\<rfloor> :: real) \<le> of_int c" by simp
  moreover have "x - 1 < of_int \<lfloor>x\<rfloor>" by linarith
  ultimately have low: "x - 1 < of_int c" by linarith
  have upp: "of_int c < x + 1"
  proof (rule ccontr)
    assume "\<not> of_int c < x + 1"
    then have "x \<le> of_int (c - 1)" by simp
    moreover have "\<bar>c - 1\<bar> \<le> 2 ^ 53" using c0 cn nb by (simp add: abs_le_iff)
    ultimately have "rnd x \<le> of_int (c - 1)" by (rule up)
    then have "\<lceil>rnd x\<rceil> \<le> c - 1" by (rule ceiling_le)
    then show False unfolding c_def by simp
  qed
  have r: "real (nat c) = of_int c" using c0 by simp
  show "nat \<lceil>rnd (t * real n)\<rceil> \<le> n" using cn c0 unfolding c_def x_def by linarith
  show "t * real n - 1 < real (nat \<lceil>rnd (t * real n)\<rceil>)"
    using low r unfolding c_def x_def by simp
  show "real (nat \<lceil>rnd (t * real n)\<rceil>) < t * real n + 1"
    using upp r unfolding c_def x_def by simp
qed

lemma train_test_split_Inr:
  assumes g: "valid_rng g" and o: "keeps_integer_order rnd" and b: "length xs \<le> 2 ^ 53"
      and r: "train_test_split g rnd np t xs = Inr d"
  shows "\<exists>tr te. d = [(''train'', tr), (''test'', te)]
           \<and> mset tr + mset te = mset xs
           \<and> length te = nat \<lceil>rnd (t * real (length xs))\<rceil>
           \<and> 0 < t \<and> t < 1"
proof -
  define n where "n = length xs"
  define k where "k = nat \<lceil>rnd (t * real n)\<rceil>"
  define p where "p = g np n"
  have t: "0 < t" "t < 1" and ne: "int n - int k \<noteq> 0"
    using r by (auto simp: train_test_split_def Let_def n_def k_def split: if_splits)
  have pm: "mset p = mset [0 ..< length xs]" using g by (simp add: valid_rng_def p_def n_def)
  then have lp: "length p = n" using mset_eq_length [OF pm] by (simp add: n_def)
  have nb: "n \<le> 2 ^ 53" using b by (simp add: n_def)
  have kn: "k \<le> n" unfolding k_def using rounded_ceiling_bounds(1) [OF o t nb] .
  have tr_idx: "take (nat (int n - int k)) (drop k p) = drop k p" using lp kn by simp
  have all: "list_all (\<lambda>i. i < length xs) p" using perm_indices_in_range [OF pm] .
  have a1: "list_all (\<lambda>i. i < length xs) (take k p)"
    using all by (auto simp: list_all_iff dest: in_set_takeD)
  have a2: "list_all (\<lambda>i. i < length xs) (drop k p)"
    using all by (auto simp: list_all_iff dest: in_set_dropD)
  have s1: "select xs (take k p) = Inr (map (\<lambda>i. xs ! i) (take k p))"
    using a1 by (simp add: select_def)
  have s2: "select xs (drop k p) = Inr (map (\<lambda>i. xs ! i) (drop k p))"
    using a2 by (simp add: select_def)
  have d: "d = [(''train'', map (\<lambda>i. xs ! i) (drop k p)), (''test'', map (\<lambda>i. xs ! i) (take k p))]"
    using r t ne s1 s2 tr_idx
    by (simp add: train_test_split_def Let_def n_def [symmetric] k_def [symmetric] p_def [symmetric])
  have "mset (map (\<lambda>i. xs ! i) (drop k p)) + mset (map (\<lambda>i. xs ! i) (take k p))
          = mset (map (\<lambda>i. xs ! i) (take k p @ drop k p))"
    by (simp only: map_append mset_append add.commute)
  also have "\<dots> = mset xs" using select_all(2) [OF pm] by simp
  finally have m: "mset (map (\<lambda>i. xs ! i) (drop k p)) + mset (map (\<lambda>i. xs ! i) (take k p)) = mset xs" .
  have l: "length (map (\<lambda>i. xs ! i) (take k p)) = nat \<lceil>rnd (t * real (length xs))\<rceil>"
    using kn lp by (simp add: k_def n_def)
  show ?thesis using d m l t by blast
qed

lemma split_main_published:
  assumes "published (fst (split_main g a w)) = Some d"
  shows "\<exists>original train_split shuffled.
           hub w (original_repo a) = Some original
         \<and> map_of original ''train'' = Some train_split
         \<and> shuffle g (seed a) train_split = Inr shuffled
         \<and> (\<exists>sd tr te. train_test_split g (round_double w) (np_global w) (test_size a) shuffled = Inr sd
               \<and> map_of sd ''train'' = Some tr \<and> map_of sd ''test'' = Some te
               \<and> d = [(''train'', tr), (''test'', te)])"
  using assms
  by (auto simp: split_main_def published_def Let_def split: if_splits option.splits sum.splits)

subsection \<open>Two concrete runs\<close>

lemma demo_shuffle:
  "shuffle demo_rng 42 [''q0'', ''q1'', ''q2'', ''q3''] = Inr [''q2'', ''q3'', ''q0'', ''q1'']"
  by (simp add: shuffle_def select_def demo_rng_def Let_def upt_rec)

lemma demo_run_1:
  "split_main demo_rng demo_args (demo_sworld 1) =
     ([LoadDataset ''xiaomama2002/olympic_dataset'',
       PushToHub ''xiaomama2002/olympic_dataset'' False (Some ''hf_x'')
         [(''train'', [''q1'', ''q2'']), (''test'', [''q3'', ''q0''])]],
      (demo_sworld 1)\<lparr>py_random := Some 42\<rparr>, Inr ())"
  by (simp add: split_main_def demo_args_def demo_sworld_def falsy_def demo_shuffle
        train_test_split_def select_def demo_rng_def Let_def upt_rec)

lemma demo_run_3:
  "split_main demo_rng demo_args (demo_sworld 3) =
     ([LoadDataset ''xiaomama2002/olympic_dataset'',
       PushToHub ''xiaomama2002/olympic_dataset'' False (Some ''hf_x'')
         [(''train'', [''q3'', ''q0'']), (''test'', [''q1'', ''q2''])]],
      (demo_sworld 3)\<lparr>py_random := Some 42\<rparr>, Inr ())"
  by (simp add: split_main_def demo_args_def demo_sworld_def falsy_def demo_shuffle
        train_test_split_def select_def demo_rng_def Let_def upt_rec)

lemma demo_published_1:
  "published (fst (split_main demo_rng demo_args (demo_sworld 1))) =
     Some [(''train'', [''q1'', ''q2'']), (''test'', [''q3'', ''q0''])]"
  by (simp add: demo_run_1 published_def)

lemma demo_published_3:
  "published (fst (split_main demo_rng demo_args (demo_sworld 3))) =
     Some [(''train'', [''q3'', ''q0'']), (''test'', [''q1'', ''q2''])]"
  by (simp add: demo_run_3 published_def)

lemma round_near_one_order: "keeps_integer_order round_near_one"
proof -
  have up: "round_near_one x \<le> of_int m" if "x \<le> of_int m" for x and m :: int
  proof -
    have "x * 2 ^ 52 \<le> of_int (m * 2 ^ 52)" using that by simp
    then have "round (x * 2 ^ 52) \<le> round (of_int (m * 2 ^ 52) :: real)" by (rule round_mono)
    then have "round (x * 2 ^ 52) \<le> m * 2 ^ 52" by (simp only: round_of_int)
    then have "(of_int (round (x * 2 ^ 52)) :: real) \<le> of_int (m * 2 ^ 52)"
      by (simp only: of_int_le_iff)
    then show ?thesis by (simp add: round_near_one_def divide_le_eq)
  qed
  have lo: "of_int m \<le> round_near_one x" if "of_int m \<le> x" for x and m :: int
  proof -
    have "of_int (m * 2 ^ 52) \<le> x * 2 ^ 52" using that by simp
    then have "round (of_int (m * 2 ^ 52) :: real) \<le> round (x * 2 ^ 52)" by (rule round_mono)
    then have "m * 2 ^ 52 \<le> round (x * 2 ^ 52)" by (simp only: round_of_int)
    then have "(of_int (m * 2 ^ 52) :: real) \<le> of_int (round (x * 2 ^ 52))"
      by (simp only: of_int_le_iff)
    then show ?thesis by (simp add: round_near_one_def le_divide_eq)
  qed
  show ?thesis unfolding keeps_integer_order_def using up lo by blast
qed

lemma fifth_of_five_rows:
  "nat \<lceil>round_near_one (3602879701896397 / 18014398509481984 * real (5::nat))\<rceil> = 1"
  by (simp add: round_near_one_def round_def)

lemma fifth_shuffle:
  "shuffle demo_rng 42 [''q0'', ''q1'', ''q2'', ''q3'', ''q4''] =
     Inr [''q2'', ''q3'', ''q4'', ''q0'', ''q1'']"
  by (simp add: shuffle_def select_def demo_rng_def Let_def upt_rec)

lemma fifth_split:
  "train_test_split demo_rng round_near_one 1 (3602879701896397 / 18014398509481984)
     [''q2'', ''q3'', ''q4'', ''q0'', ''q1''] =
     Inr [(''train'', [''q4'', ''q0'', ''q1'', ''q2'']), (''test'', [''q3''])]"
proof -
  have n: "nat \<lceil>round_near_one (3602879701896397 / 18014398509481984 *
             real (length [''q2'', ''q3'', ''q4'', ''q0'', ''q1'']))\<rceil> = 1"
    using fifth_of_five_rows by simp
  show ?thesis
    unfolding train_test_split_def Let_def n
    by (simp add: select_def demo_rng_def Let_def upt_rec)
qed

lemma fifth_run:
  "split_main demo_rng fifth_args fifth_sworld =
     ([LoadDataset ''xiaomama2002/olympic_dataset'',
       PushToHub ''xiaomama2002/olympic_dataset'' False (Some ''hf_x'')
         [(''train'', [''q4'', ''q0'', ''q1'', ''q2'']), (''test'', [''q3''])]],
      fifth_sworld\<lparr>py_random := Some 42\<rparr>, Inr ())"
  by (simp add: split_main_def fifth_args_def fifth_sworld_def falsy_def fifth_shuffle fifth_split)

subsection \<open>The partition\<close>

text \<open>
  Claim C4. When the generator yields permutations and a run publishes a dataset, the
  published dataset is a train split and a test split that together hold exactly the
  records of the source's train split, each as often as the source does (so none is
  dropped and none duplicated; when the source records are pairwise different the two
  splits are disjoint). The test split has \<open>ceil\<close> of the double product of
  \<open>test_size\<close> and \<open>K\<close> records, which is less than one record away from
  \<open>test_size * K\<close>: rounding to the nearest double keeps the order with the integers
  up to \<open>2^53\<close>, and \<open>K\<close> is taken not to exceed \<open>2^53\<close>.
\<close>

theorem split_is_exact_partition:
  assumes "valid_rng g"
      and "keeps_integer_order (round_double w)"
      and "hub w (original_repo a) = Some original"
      and "map_of original ''train'' = Some train_split"
      and "published (fst (split_main g a w)) = Some d"
      and "length train_split \<le> 2 ^ 53"
  shows "\<exists>tr te. d = [(''train'', tr), (''test'', te)]
           \<and> mset tr + mset te = mset train_split
           \<and> (distinct train_split \<longrightarrow> distinct tr \<and> distinct te \<and> set tr \<inter> set te = {})
           \<and> length tr + length te = length train_split
           \<and> length te = nat \<lceil>round_double w (test_size a * real (length train_split))\<rceil>
           \<and> test_size a * real (length train_split) - 1 < real (length te)
           \<and> real (length te) < test_size a * real (length train_split) + 1"
proof -
  obtain shuffled sd tr te where
    sh: "shuffle g (seed a) train_split = Inr shuffled" and
    sp: "train_test_split g (round_double w) (np_global w) (test_size a) shuffled = Inr sd" and
    mtr: "map_of sd ''train'' = Some tr" and mte: "map_of sd ''test'' = Some te" and
    d: "d = [(''train'', tr), (''test'', te)]"
    using split_main_published [OF assms(5)] assms(3,4) by auto
  have shm: "mset shuffled = mset train_split" and shl: "length shuffled = length train_split"
    using shuffle_perm [OF assms(1) sh] by auto
  obtain tr' te' where
    sd: "sd = [(''train'', tr'), (''test'', te')]" and
    m: "mset tr' + mset te' = mset shuffled" and
    lte: "length te' = nat \<lceil>round_double w (test_size a * real (length shuffled))\<rceil>" and
    t: "0 < test_size a" "test_size a < 1"
    using train_test_split_Inr [OF assms(1,2) _ sp] assms(6) shl by auto
  have eq: "tr' = tr" "te' = te" using sd mtr mte by auto
  have ms: "mset tr + mset te = mset train_split" using m shm eq by simp
  have len: "length tr + length te = length train_split"
    using arg_cong [OF ms, of size] by simp
  have dist: "distinct tr \<and> distinct te \<and> set tr \<inter> set te = {}" if "distinct train_split"
  proof -
    have "mset (tr @ te) = mset train_split" using ms by simp
    then have "distinct (tr @ te)" using that by (metis mset_eq_imp_distinct_iff)
    then show ?thesis by simp
  qed
  have lt: "length te = nat \<lceil>round_double w (test_size a * real (length train_split))\<rceil>"
    using lte shl eq by simp
  have b1: "test_size a * real (length train_split) - 1 < real (length te)"
    unfolding lt using rounded_ceiling_bounds(2) [OF assms(2) t assms(6)] .
  have b2: "real (length te) < test_size a * real (length train_split) + 1"
    unfolding lt using rounded_ceiling_bounds(3) [OF assms(2) t assms(6)] .
  show ?thesis using d ms dist len lt b1 b2 by blast
qed

theorem split_is_exact_partition_witness:
  "valid_rng demo_rng
   \<and> keeps_integer_order (round_double fifth_sworld)
   \<and> published (fst (split_main demo_rng fifth_args fifth_sworld)) =
       Some [(''train'', [''q4'', ''q0'', ''q1'', ''q2'']), (''test'', [''q3''])]
   \<and> mset [''q4'', ''q0'', ''q1'', ''q2''] + mset [''q3''] = mset [''q0'', ''q1'', ''q2'', ''q3'', ''q4'']
   \<and> length [''q3''] =
       nat \<lceil>round_double fifth_sworld
              (test_size fifth_args * real (length [''q0'', ''q1'', ''q2'', ''q3'', ''q4'']))\<rceil>
   \<and> test_size fifth_args * real (length [''q0'', ''q1'', ''q2'', ''q3'', ''q4'']) - 1
         < real (length [''q3''])
   \<and> real (length [''q3''])
         < test_size fifth_args * real (length [''q0'', ''q1'', ''q2'', ''q3'', ''q4'']) + 1"
proof -
  let ?xs = "[''q0'', ''q1'', ''q2'', ''q3'', ''q4'']"
  let ?d = "[(''train'', [''q4'', ''q0'', ''q1'', ''q2'']), (''test'', [''q3''])]"
  have k: "keeps_integer_order (round_double fifth_sworld)"
    using round_near_one_order by (simp add: fifth_sworld_def)
  have h: "hub fifth_sworld (original_repo fifth_args) = Some [(''train'', ?xs)]"
    by (simp add: fifth_sworld_def fifth_args_def)
  have m: "map_of [(''train'', ?xs)] ''train'' = Some ?xs" by simp
  have p: "published (fst (split_main demo_rng fifth_args fifth_sworld)) = Some ?d"
    by (simp add: fifth_run published_def)
  have b: "length ?xs \<le> 2 ^ 53" by simp
  from split_is_exact_partition
         [where g = demo_rng and w = fifth_sworld and a = fifth_args
            and original = "[(''train'', ?xs)]" and train_split = ?xs and d = ?d,
          OF demo_rng_valid k h m p b]
  obtain tr te where e: "?d = [(''train'', tr), (''test'', te)]"
     and ms: "mset tr + mset te = mset ?xs"
     and l: "length te = nat \<lceil>round_double fifth_sworld (test_size fifth_args * real (length ?xs))\<rceil>"
     and b1: "test_size fifth_args * real (length ?xs) - 1 < real (length te)"
     and b2: "real (length te) < test_size fifth_args * real (length ?xs) + 1"
    by blast
  have tr: "tr = [''q4'', ''q0'', ''q1'', ''q2'']" and te: "te = [''q3'']" using e by simp_all
  show ?thesis
    using demo_rng_valid k p ms l b1 b2 unfolding tr te by (intro conjI)
qed

subsection \<open>Dependence on the seed\<close>

text \<open>
  Claim C1, evaluated on the code. Two runs with the same arguments (seed 42) and the
  same source, which differ only in the state of NumPy's global generator, publish
  different partitions: the test split is \<open>{q3, q0}\<close> in one and \<open>{q1, q2}\<close> in the
  other. The split of line 74 is called without \<open>seed\<close> and with the default
  \<open>shuffle=True\<close>, so the seed of the command line does not fix the partition.
\<close>

theorem same_seed_different_partition:
  "seed demo_args = 42
   \<and> hub (demo_sworld 1) = hub (demo_sworld 3)
   \<and> published (fst (split_main demo_rng demo_args (demo_sworld 1))) =
       Some [(''train'', [''q1'', ''q2'']), (''test'', [''q3'', ''q0''])]
   \<and> published (fst (split_main demo_rng demo_args (demo_sworld 3))) =
       Some [(''train'', [''q3'', ''q0'']), (''test'', [''q1'', ''q2''])]
   \<and> set [''q3'', ''q0''] \<noteq> set [''q1'', ''q2'']"
proof -
  have s: "seed demo_args = 42" by (simp add: demo_args_def)
  have h: "hub (demo_sworld 1) = hub (demo_sworld 3)" by (simp add: demo_sworld_def)
  have i: "''q3'' \<in> set [''q3'', ''q0'']" by simp
  have o: "''q3'' \<notin> set [''q1'', ''q2'']" by simp
  have ne: "set [''q3'', ''q0''] \<noteq> set [''q1'', ''q2'']"
  proof
    assume "set [''q3'', ''q0''] = set [''q1'', ''q2'']"
    then have "''q3'' \<in> set [''q1'', ''q2'']" using i by (simp only:)
    then show False using o by (rule notE [rotated])
  qed
  show ?thesis using s h demo_published_1 demo_published_3 ne by (intro conjI)
qed

text \<open>
  Claim C2, evaluated on the code. On the source \<open>q0, q1, q2, q3\<close> with seed 42 the
  seeded shuffle gives \<open>q2, q3, q0, q1\<close>; a contiguous fraction of it would give the
  test split \<open>q2, q3\<close>. The run publishes the test split \<open>q1, q2\<close>, which is no
  window of two consecutive rows of the shuffled sequence: the split of line 74 shuffles
  again, from a seed that is not the given one.
\<close>

theorem published_not_contiguous_in_seeded_shuffle:
  "shuffle demo_rng (seed demo_args) [''q0'', ''q1'', ''q2'', ''q3''] =
     Inr [''q2'', ''q3'', ''q0'', ''q1'']
   \<and> contiguous_split (test_size demo_args) [''q2'', ''q3'', ''q0'', ''q1''] =
       [(''train'', [''q0'', ''q1'']), (''test'', [''q2'', ''q3''])]
   \<and> published (fst (split_main demo_rng demo_args (demo_sworld 3))) =
       Some [(''train'', [''q3'', ''q0'']), (''test'', [''q1'', ''q2''])]
   \<and> [''q1'', ''q2''] \<notin> set (map (\<lambda>k. take 2 (drop k [''q2'', ''q3'', ''q0'', ''q1''])) [0, 1, 2])"
proof -
  have s: "shuffle demo_rng (seed demo_args) [''q0'', ''q1'', ''q2'', ''q3''] =
             Inr [''q2'', ''q3'', ''q0'', ''q1'']"
    using demo_shuffle by (simp add: demo_args_def)
  have c: "contiguous_split (test_size demo_args) [''q2'', ''q3'', ''q0'', ''q1''] =
             [(''train'', [''q0'', ''q1'']), (''test'', [''q2'', ''q3''])]"
    by (simp add: contiguous_split_def demo_args_def)
  have w: "[''q1'', ''q2''] \<notin> set (map (\<lambda>k. take 2 (drop k [''q2'', ''q3'', ''q0'', ''q1''])) [0, 1, 2])"
    by simp
  show ?thesis using s c demo_published_3 w by (intro conjI)
qed

subsection \<open>Failed preconditions\<close>

text \<open>
  Claim C3 as stated fails: with a token and a source that has no train split, the run
  ends with the error only after it has downloaded the source.
\<close>

theorem no_train_detected_after_load:
  "\<not> falsy (hf_token demo_args)
   \<and> hub no_train_sworld (original_repo demo_args) = Some [(''validation'', [''q0'', ''q1''])]
   \<and> snd (snd (split_main demo_rng demo_args no_train_sworld)) = Inl (ValueError ''no train split'')
   \<and> fst (split_main demo_rng demo_args no_train_sworld) = [LoadDataset ''xiaomama2002/olympic_dataset'']
   \<and> fst (split_main demo_rng demo_args no_train_sworld) \<noteq> []"
  by (simp add: split_main_def demo_args_def no_train_sworld_def falsy_def)

text \<open>
  Claim C3, amended. Without a credential (no \<open>--hf_token\<close> and no \<open>HF_TOKEN\<close>, or
  an empty token) the run fails with \<open>ValueError\<close> before any call that reaches the
  network or the disk. With a credential and a source without a train split the run fails
  with \<open>ValueError\<close> after the download of the source and before anything else: the
  download is the only call made, and nothing is published.
\<close>

theorem precondition_failures:
  "falsy (hf_token_default None None)
   \<and> (falsy (hf_token a) \<longrightarrow> split_main g a w = ([], w, Inl (ValueError ''HF_TOKEN'')))
   \<and> (\<not> falsy (hf_token a) \<and> hub w (original_repo a) = Some original
        \<and> map_of original ''train'' = None \<longrightarrow>
          split_main g a w = ([LoadDataset (original_repo a)], w, Inl (ValueError ''no train split'')))"
  by (simp add: split_main_def falsy_def hf_token_default_def)

theorem precondition_failures_witness:
  "falsy (hf_token (demo_args\<lparr>hf_token := None\<rparr>))
   \<and> split_main demo_rng (demo_args\<lparr>hf_token := None\<rparr>) (demo_sworld 1) =
       ([], demo_sworld 1, Inl (ValueError ''HF_TOKEN''))
   \<and> \<not> falsy (hf_token demo_args)
   \<and> hub no_train_sworld (original_repo demo_args) = Some [(''validation'', [''q0'', ''q1''])]
   \<and> map_of [(''validation'', [''q0'', ''q1''])] ''train'' = None
   \<and> split_main demo_rng demo_args no_train_sworld =
       ([LoadDataset (original_repo demo_args)], no_train_sworld, Inl (ValueError ''no train split''))"
proof -
  have f: "falsy (hf_token (demo_args\<lparr>hf_token := None\<rparr>))" by (simp add: falsy_def)
  have n: "\<not> falsy (hf_token demo_args)" by (simp add: falsy_def demo_args_def)
  have h: "hub no_train_sworld (original_repo demo_args) = Some [(''validation'', [''q0'', ''q1''])]"
    by (simp add: no_train_sworld_def demo_args_def)
  have m: "map_of [(''validation'', [''q0'', ''q1''])] ''train'' = None" by simp
  have a: "split_main demo_rng (demo_args\<lparr>hf_token := None\<rparr>) (demo_sworld 1) =
             ([], demo_sworld 1, Inl (ValueError ''HF_TOKEN''))"
    using precondition_failures
            [where a = "demo_args\<lparr>hf_token := None\<rparr>" and g = demo_rng and w = "demo_sworld 1"] f
    by blast
  have b: "split_main demo_rng demo_args no_train_sworld =
             ([LoadDataset (original_repo demo_args)], no_train_sworld, Inl (ValueError ''no train split''))"
    using precondition_failures
            [where a = demo_args and g = demo_rng and w = no_train_sworld
               and original = "[(''validation'', [''q0'', ''q1''])]"] n h m
    by blast
  show ?thesis using f a n h m b by (intro conjI)
qed

subsection \<open>The destination of the upload\<close>

text \<open>
  Claim C9. Every call of a run that names a repository names \<open>args.original_repo\<close>:
  the download and the upload. A run that ends without error has made exactly these two
  calls, so it has published the two-split dataset under the name of its source.
\<close>

theorem publish_targets_source_repo:
  "(\<forall>e \<in> set (fst (split_main g a w)).
       e = LoadDataset (original_repo a)
     \<or> (\<exists>d. e = PushToHub (original_repo a) (private_flag a) (hf_token a) d))
   \<and> (snd (snd (split_main g a w)) = Inr () \<longrightarrow>
        (\<exists>d. fst (split_main g a w) =
               [LoadDataset (original_repo a),
                PushToHub (original_repo a) (private_flag a) (hf_token a) d]))"
  by (auto simp: split_main_def Let_def split: option.splits sum.splits)

theorem publish_targets_source_repo_witness:
  "snd (snd (split_main demo_rng demo_args (demo_sworld 1))) = Inr ()
   \<and> (\<exists>d. fst (split_main demo_rng demo_args (demo_sworld 1)) =
            [LoadDataset ''xiaomama2002/olympic_dataset'',
             PushToHub ''xiaomama2002/olympic_dataset'' False (Some ''hf_x'') d])"
proof -
  have ok: "snd (snd (split_main demo_rng demo_args (demo_sworld 1))) = Inr ()"
    by (simp add: demo_run_1)
  have r: "original_repo demo_args = ''xiaomama2002/olympic_dataset''"
    "private_flag demo_args = False" "hf_token demo_args = Some ''hf_x''"
    by (simp_all add: demo_args_def)
  from publish_targets_source_repo [where g = demo_rng and a = demo_args and w = "demo_sworld 1"] ok
  have "\<exists>d. fst (split_main demo_rng demo_args (demo_sworld 1)) =
               [LoadDataset (original_repo demo_args),
                PushToHub (original_repo demo_args) (private_flag demo_args) (hf_token demo_args) d]"
    by blast
  then show ?thesis using ok unfolding r by blast
qed

end
